theory Spec2Isabelle
  imports Main "HOL-Library.Code_Target_Nat"
begin

section \<open>JavaScript strings\<close>

text \<open>
  A JavaScript string is a sequence of UTF-16 code units and \<open>.length\<close> counts them.
  It is modelled as a \<open>string\<close> whose characters stand for the code units
  \<open>0x00\<close> to \<open>0xFF\<close>; list length is \<open>.length\<close>. The whitespace class
  (\<open>\s\<close> in a regular expression, and what \<open>trim\<close> strips) is the part of the
  ECMAScript class in that range: tab, line feed, vertical tab, form feed, carriage
  return, space and no-break space.
\<close>

fun startsWith :: "string \<Rightarrow> string \<Rightarrow> bool" where
  "startsWith s [] = True"
| "startsWith [] (p # ps) = False"
| "startsWith (c # cs) (p # ps) = (c = p \<and> startsWith cs ps)"

fun str_includes :: "string \<Rightarrow> string \<Rightarrow> bool" where
  "str_includes [] needle = (needle = [])"
| "str_includes (c # cs) needle = (startsWith (c # cs) needle \<or> str_includes cs needle)"

fun join :: "string \<Rightarrow> string list \<Rightarrow> string" where
  "join sep [] = []"
| "join sep [x] = x"
| "join sep (x # y # ys) = x @ sep @ join sep (y # ys)"

definition is_space :: "char \<Rightarrow> bool" where
  "is_space c =
     (c \<in> set [CHR 0x09, CHR 0x0A, CHR 0x0B, CHR 0x0C, CHR 0x0D, CHR '' '', CHR 0xA0])"

text \<open>\<open>s.replace(/\s+/g, ' ')\<close>: every maximal whitespace run becomes one space.\<close>

function replace_ws :: "string \<Rightarrow> string" where
  "replace_ws [] = []"
| "replace_ws (c # cs) =
     (if is_space c then CHR '' '' # replace_ws (dropWhile is_space cs)
      else c # replace_ws cs)"
  by pat_completeness auto
termination
  by (relation "measure length") (auto simp: less_Suc_eq_le length_dropWhile_le)

definition trim :: "string \<Rightarrow> string" where
  "trim s = rev (dropWhile is_space (rev (dropWhile is_space s)))"

text \<open>The decimal rendering of a non-negative integer in a template literal.\<close>

function digits :: "nat \<Rightarrow> string" where
  "digits n =
     (if n < 10 then [''0123456789'' ! n]
      else digits (n div 10) @ [''0123456789'' ! (n mod 10)])"
  by pat_completeness auto
termination
  by (relation "measure id") auto

declare digits.simps [simp del]

section \<open>The identifier extractor\<close>

text \<open>
  \<open>extractVideoId\<close> tries two regular expressions in order and returns capture group
  1 of the first that matches. The first one is not anchored:
  \<^verbatim>\<open>/(?:youtube\.com\/watch\?v=|youtu\.be\/|youtube\.com\/embed\/|youtube\.com\/v\/)([^&\n?#]+)/\<close>
  so it is searched from every start position, leftmost first; at a position the
  alternatives are tried in order and the greedy group takes the longest run of
  characters outside \<open>&\<close>, line feed, \<open>?\<close> and \<open>#\<close>, which must not be empty.
  The second one, \<^verbatim>\<open>/^([a-zA-Z0-9_-]{11})$/\<close>, matches the whole string only.
\<close>

definition url_markers :: "string list" where
  "url_markers =
     [''youtube.com/watch?v='', ''youtu.be/'', ''youtube.com/embed/'', ''youtube.com/v/'']"

definition id_stop :: "char \<Rightarrow> bool" where
  "id_stop c = (c \<in> set [CHR ''&'', CHR 0x0A, CHR ''?'', CHR ''#''])"

definition capture_run :: "string \<Rightarrow> string" where
  "capture_run s = takeWhile (\<lambda>c. \<not> id_stop c) s"

fun match_alternatives :: "string list \<Rightarrow> string \<Rightarrow> string option" where
  "match_alternatives [] s = None"
| "match_alternatives (m # ms) s =
     (if startsWith s m \<and> capture_run (drop (length m) s) \<noteq> []
      then Some (capture_run (drop (length m) s))
      else match_alternatives ms s)"

fun search_url_pattern :: "string \<Rightarrow> string option" where
  "search_url_pattern [] = match_alternatives url_markers []"
| "search_url_pattern (c # cs) =
     (case match_alternatives url_markers (c # cs) of
        Some v \<Rightarrow> Some v
      | None \<Rightarrow> search_url_pattern cs)"

definition in_range :: "char \<Rightarrow> char \<Rightarrow> char \<Rightarrow> bool" where
  "in_range lo hi c = ((of_char lo :: nat) \<le> of_char c \<and> (of_char c :: nat) \<le> of_char hi)"

definition is_id_char :: "char \<Rightarrow> bool" where
  "is_id_char c =
     (in_range CHR ''a'' CHR ''z'' c \<or> in_range CHR ''A'' CHR ''Z'' c \<or>
      in_range CHR ''0'' CHR ''9'' c \<or> c = CHR ''_'' \<or> c = CHR ''-'')"

definition match_bare_id :: "string \<Rightarrow> string option" where
  "match_bare_id s = (if length s = 11 \<and> list_all is_id_char s then Some s else None)"

definition extractVideoId :: "string \<Rightarrow> string option" where
  "extractVideoId url =
     (case search_url_pattern url of
        Some v \<Rightarrow> Some v
      | None \<Rightarrow> match_bare_id url)"

section \<open>The transcript resolver (route \<open>/api/youtube\<close>)\<close>

text \<open>
  The file that holds this route carries two revisions of it. The later one, which adds
  \<open>validateOpenAIKey\<close> and the 401 and 429 status codes, is the one modelled; the two
  agree on \<open>extractVideoId\<close>, on the native-caption step and on the \<open>try\<close>/\<open>finally\<close>
  of \<open>transcribeWithWhisper\<close>.

  Everything outside the route is a field of \<open>host\<close>: the environment variable, the
  captions library, the \<open>yt-dlp\<close> executable, the speech-to-text service, the
  temporary directory, \<open>path.join\<close>, the clock, and whether \<open>fs.unlinkSync\<close> of a path
  throws. What the route does to the outside is recorded in \<open>state\<close>: the paths that
  exist and the external calls made, in order.
\<close>

datatype thrown =
    Error (err_message: string) (err_status: "nat option") (err_code: "string option")
  | NonError

datatype 'a outcome = Throws thrown | Returns 'a

text \<open>Of a caption fragment the route reads the \<open>text\<close> field only.\<close>

record transcript_item =
  item_text :: string

record video_info =
  info_title :: string
  info_duration :: nat
  info_id :: string

datatype call =
    FetchTranscript string
  | WhichYtDlp
  | YtDlpDumpJson string
  | YtDlpDownload string string
  | WhisperCreate string

record host =
  OPENAI_API_KEY :: "string option"
  fetchTranscript :: "string \<Rightarrow> transcript_item list outcome"
  which_yt_dlp :: bool
  yt_dlp_dump_json :: "string \<Rightarrow> video_info outcome"
  yt_dlp_download :: "string \<Rightarrow> string \<Rightarrow> bool \<times> thrown option"
  whisper_create :: "string \<Rightarrow> string outcome"
  tmpdir :: string
  path_join :: "string \<Rightarrow> string \<Rightarrow> string"
  date_now :: nat
  fs_unlink :: "string \<Rightarrow> thrown option"

record state =
  files :: "string set"
  calls :: "call list"

datatype response =
    Success string string bool
  | Failure nat string

definition called :: "call \<Rightarrow> state \<Rightarrow> state" where
  "called c s = s\<lparr>calls := calls s @ [c]\<rparr>"

definition getVideoInfo :: "host \<Rightarrow> string \<Rightarrow> state \<Rightarrow> video_info outcome \<times> state" where
  "getVideoInfo h videoUrl s =
     (case yt_dlp_dump_json h videoUrl of
        Returns info \<Rightarrow> (Returns info, called (YtDlpDumpJson videoUrl) s)
      | Throws (Error m st cd) \<Rightarrow>
          (Throws (Error (''Failed to get video info: '' @ m) None None),
           called (YtDlpDumpJson videoUrl) s)
      | Throws NonError \<Rightarrow>
          (Throws (Error ''Failed to get video info: Unknown error'' None None),
           called (YtDlpDumpJson videoUrl) s))"

text \<open>
  \<open>yt_dlp_download\<close> says whether the run left the output file behind and whether the
  command failed; a failed run may or may not have written the file.
\<close>

definition downloadAudio :: "host \<Rightarrow> string \<Rightarrow> string \<Rightarrow> state \<Rightarrow> unit outcome \<times> state" where
  "downloadAudio h videoUrl outputPath s =
     (let s1 = called (YtDlpDownload videoUrl outputPath) s;
          s2 = (if fst (yt_dlp_download h videoUrl outputPath)
                then s1\<lparr>files := insert outputPath (files s1)\<rparr> else s1)
      in case snd (yt_dlp_download h videoUrl outputPath) of
           Some e \<Rightarrow> (Throws e, s2)
         | None \<Rightarrow> (Returns (), s2))"

definition validateOpenAIKey :: "string option \<Rightarrow> thrown option" where
  \<open>validateOpenAIKey apiKey =
     (case apiKey of
        None \<Rightarrow> Some (Error ''OPENAI_API_KEY is not set in environment variables'' None None)
      | Some k \<Rightarrow>
          if k = [] then
            Some (Error ''OPENAI_API_KEY is not set in environment variables'' None None)
          else if \<not> startsWith k ''sk-'' then
            Some (Error ''OPENAI_API_KEY appears to be invalid (should start with "sk-")''
                    None None)
          else if length k < 20 then
            Some (Error ''OPENAI_API_KEY appears to be too short'' None None)
          else None)\<close>

text \<open>
  The temporary file: \<open>path.join\<close> of \<open>os.tmpdir()\<close> and the name \<open>whisper_audio_\<close>,
  \<open>Date.now()\<close> in decimal, \<open>.mp3\<close>; \<open>path.join\<close> is the host's.
\<close>

definition tempFile_path :: "host \<Rightarrow> string" where
  "tempFile_path h = path_join h (tmpdir h) (''whisper_audio_'' @ digits (date_now h) @ ''.mp3'')"

text \<open>The body of the \<open>try\<close> block of \<open>transcribeWithWhisper\<close>.\<close>

definition whisper_try ::
  "host \<Rightarrow> string \<Rightarrow> string \<Rightarrow> video_info \<Rightarrow> state \<Rightarrow> (string \<times> string) outcome \<times> state" where
  "whisper_try h videoUrl tempFile info s =
     (case downloadAudio h videoUrl tempFile s of
        (Throws e, s1) \<Rightarrow> (Throws e, s1)
      | (Returns u, s1) \<Rightarrow>
          (case whisper_create h tempFile of
             Throws e \<Rightarrow> (Throws e, called (WhisperCreate tempFile) s1)
           | Returns transcription \<Rightarrow>
               (Returns (transcription, info_title info), called (WhisperCreate tempFile) s1)))"

text \<open>
  The \<open>finally\<close> block: \<open>if (fs.existsSync(tempFile)) fs.unlinkSync(tempFile)\<close>. When
  \<open>unlinkSync\<close> throws, the path stays and the block ends with that exception.
\<close>

definition cleanup :: "host \<Rightarrow> string \<Rightarrow> state \<Rightarrow> thrown option \<times> state" where
  "cleanup h tempFile s =
     (if tempFile \<in> files s then
        (case fs_unlink h tempFile of
           None \<Rightarrow> (None, s\<lparr>files := files s - {tempFile}\<rparr>)
         | Some e \<Rightarrow> (Some e, s))
      else (None, s))"

text \<open>An exception thrown by the \<open>finally\<close> block replaces what the \<open>try\<close> block produced.\<close>

definition transcribeWithWhisper ::
  "host \<Rightarrow> string \<Rightarrow> state \<Rightarrow> (string \<times> string) outcome \<times> state" where
  "transcribeWithWhisper h videoUrl s =
     (case validateOpenAIKey (OPENAI_API_KEY h) of
        Some e \<Rightarrow> (Throws e, s)
      | None \<Rightarrow>
          (case getVideoInfo h videoUrl s of
             (Throws e, s1) \<Rightarrow> (Throws e, s1)
           | (Returns info, s1) \<Rightarrow>
               (case whisper_try h videoUrl (tempFile_path h) info s1 of
                  (r, s2) \<Rightarrow>
                    (case cleanup h (tempFile_path h) s2 of
                       (None, s3) \<Rightarrow> (r, s3)
                     | (Some e, s3) \<Rightarrow> (Throws e, s3)))))"

text \<open>The native-caption text: \<open>items.map(item => item.text).join(' ').replace(/\s+/g, ' ').trim()\<close>.\<close>

definition native_transcript :: "transcript_item list \<Rightarrow> string" where
  "native_transcript transcriptItems = trim (replace_ws (join '' '' (map item_text transcriptItems)))"

text \<open>The \<open>catch (whisperError)\<close> block: the response for what the fallback threw.\<close>

definition whisper_catch :: "thrown \<Rightarrow> response" where
  \<open>whisper_catch whisperError =
     (case whisperError of
        NonError \<Rightarrow> Failure 500 ''Failed to transcribe video''
      | Error errorMsg st cd \<Rightarrow>
          if st = Some 401 \<or> cd = Some ''invalid_api_key'' \<or> str_includes errorMsg ''API key''
             \<or> str_includes errorMsg ''Incorrect API key''
          then Failure 401 ''Invalid or incorrect OpenAI API key. Please check your OPENAI_API_KEY in .env.local and ensure it's valid. Get a new key at https://platform.openai.com/account/api-keys''
          else if st = Some 429 \<or> str_includes errorMsg ''rate limit''
          then Failure 429 ''OpenAI rate limit reached. Please try again later.''
          else if str_includes errorMsg ''OPENAI_API_KEY is not set''
          then Failure 500 ''OpenAI API key is not configured. Please add OPENAI_API_KEY to your .env.local file.''
          else Failure 500 (''Whisper transcription failed: '' @ errorMsg))\<close>

text \<open>
  The inner \<open>try\<close> block: the call of \<open>transcribeWithWhisper\<close> and the length check,
  which throws inside the same block.
\<close>

definition whisper_attempt ::
  "host \<Rightarrow> string \<Rightarrow> state \<Rightarrow> (string \<times> string) outcome \<times> state" where
  "whisper_attempt h url s =
     (case transcribeWithWhisper h url s of
        (Throws e, s1) \<Rightarrow> (Throws e, s1)
      | (Returns (transcript, title), s1) \<Rightarrow>
          if transcript = [] \<or> length transcript < 50
          then (Throws (Error ''Whisper transcription was empty or too short'' None None), s1)
          else (Returns (transcript, title), s1))"

text \<open>The inner \<open>try\<close> with its \<open>catch\<close>.\<close>

definition whisper_step :: "host \<Rightarrow> string \<Rightarrow> state \<Rightarrow> response \<times> state" where
  "whisper_step h url s =
     (case whisper_attempt h url s of
        (Throws e, s1) \<Rightarrow> (whisper_catch e, s1)
      | (Returns (transcript, title), s1) \<Rightarrow> (Success transcript title True, s1))"

text \<open>The \<open>catch (nativeError)\<close> block: the fallback, entered whatever the native step threw.\<close>

definition fallback :: "host \<Rightarrow> string \<Rightarrow> state \<Rightarrow> response \<times> state" where
  "fallback h url s =
     (if OPENAI_API_KEY h = None \<or> OPENAI_API_KEY h = Some [] then
        (Failure 500 ''No transcript available for this video, and OpenAI API key is not configured for Whisper fallback. Please add OPENAI_API_KEY to your .env.local file.'', s)
      else
        (case validateOpenAIKey (OPENAI_API_KEY h) of
           Some (Error m st cd) \<Rightarrow> (Failure 500 m, s)
         | Some NonError \<Rightarrow>
             (Failure 500 ''Invalid OpenAI API key format. Please check your OPENAI_API_KEY in .env.local.'', s)
         | None \<Rightarrow>
             if \<not> which_yt_dlp h then
               (Failure 500 ''No transcript available. Whisper fallback requires yt-dlp to be installed (brew install yt-dlp).'',
                called WhichYtDlp s)
             else whisper_step h url (called WhichYtDlp s)))"

text \<open>
  The native step: \<open>Some\<close> the response returned from inside the outer \<open>try\<close>, \<open>None\<close>
  when the block throws (the library threw, the list is empty, or the text is short).
\<close>

definition native_step :: "host \<Rightarrow> string \<Rightarrow> string \<Rightarrow> response option" where
  "native_step h videoId title =
     (case fetchTranscript h videoId of
        Throws e \<Rightarrow> None
      | Returns transcriptItems \<Rightarrow>
          if transcriptItems \<noteq> [] \<and> 50 \<le> length (native_transcript transcriptItems)
          then Some (Success (native_transcript transcriptItems) title False)
          else None)"

definition youtube_POST :: "host \<Rightarrow> string option \<Rightarrow> state \<Rightarrow> response \<times> state" where
  "youtube_POST h body_url s =
     (case body_url of
        None \<Rightarrow> (Failure 400 ''No URL provided'', s)
      | Some url \<Rightarrow>
          if url = [] then (Failure 400 ''No URL provided'', s)
          else
            (case extractVideoId url of
               None \<Rightarrow> (Failure 400 ''Invalid YouTube URL'', s)
             | Some videoId \<Rightarrow>
                 if videoId = [] then (Failure 400 ''Invalid YouTube URL'', s)
                 else
                   (case native_step h videoId (''YouTube Video '' @ videoId) of
                      Some r \<Rightarrow> (r, called (FetchTranscript videoId) s)
                    | None \<Rightarrow> fallback h url (called (FetchTranscript videoId) s))))"

section \<open>The text cleaner (route \<open>/api/anthropic\<close>)\<close>

text \<open>
  The remote text-generation service is \<open>messages_create\<close>; the route reads the
  \<open>text\<close> field of the first content block of what it returns. A block of another
  kind has no such field, and the \<open>result\<close> key of the response is then undefined.
  The log is the list of requests sent to the service.
\<close>

datatype content_block = TextBlock string | OtherBlock

record create_params =
  model :: string
  max_tokens :: nat
  user_content :: string

record cleaner_host =
  ANTHROPIC_API_KEY :: "string option"
  messages_create :: "create_params \<Rightarrow> content_block list outcome"

datatype clean_response =
    Cleaned "string option"
  | CleanFailure nat string

definition fullPrompt :: "string \<Rightarrow> string \<Rightarrow> string" where
  "fullPrompt task content =
     ''<task>'' @ [CHR 0x0A] @ task @ [CHR 0x0A] @ ''</task>'' @ [CHR 0x0A, CHR 0x0A] @
     ''<content>'' @ [CHR 0x0A] @ content @ [CHR 0x0A] @ ''</content>''"

definition create_request :: "string \<Rightarrow> string \<Rightarrow> create_params" where
  "create_request task content =
     \<lparr>model = ''claude-sonnet-4-5-20250929'', max_tokens = 8000,
      user_content = fullPrompt task content\<rparr>"

text \<open>The \<open>try\<close> block of the route, with its \<open>catch\<close>.\<close>

definition generate ::
  "cleaner_host \<Rightarrow> string \<Rightarrow> string \<Rightarrow> create_params list \<Rightarrow> clean_response \<times> create_params list" where
  \<open>generate h content task log =
     (case messages_create h (create_request task content) of
        Throws (Error m st cd) \<Rightarrow> (CleanFailure 500 m, log @ [create_request task content])
      | Throws NonError \<Rightarrow>
          (CleanFailure 500 ''Failed to generate content'', log @ [create_request task content])
      | Returns [] \<Rightarrow>
          (CleanFailure 500 ''Cannot read properties of undefined (reading 'text')'',
           log @ [create_request task content])
      | Returns (TextBlock t # blocks) \<Rightarrow> (Cleaned (Some t), log @ [create_request task content])
      | Returns (OtherBlock # blocks) \<Rightarrow> (Cleaned None, log @ [create_request task content]))\<close>

definition anthropic_POST ::
  "cleaner_host \<Rightarrow> string option \<Rightarrow> string option \<Rightarrow> create_params list
     \<Rightarrow> clean_response \<times> create_params list" where
  "anthropic_POST h body_content body_task log =
     (case (body_content, body_task) of
        (Some content, Some task) \<Rightarrow>
          if content = [] \<or> task = [] then
            (CleanFailure 400 ''Content and task are required'', log)
          else if ANTHROPIC_API_KEY h = None \<or> ANTHROPIC_API_KEY h = Some [] then
            (CleanFailure 500 ''Anthropic API key not configured'', log)
          else generate h content task log
      | _ \<Rightarrow> (CleanFailure 400 ''Content and task are required'', log))"

section \<open>The client orchestrator (\<open>handleSubmit\<close> of the page)\<close>

text \<open>
  \<open>axios.post\<close> resolves for a status from 200 to 299 and rejects otherwise, with the
  response attached; it also rejects when no response arrives. The handler's effect is
  the final value of the page's state variables and the list of requests it sent.
\<close>

record response_data =
  data_content :: "string option"
  data_title :: "string option"
  data_usedWhisper :: "bool option"
  data_result :: "string option"
  data_error :: "string option"

datatype axios_result = NoResponse thrown | HttpResponse nat response_data

datatype request = PostYoutube string | PostAnthropic "string option" string

record backend =
  post_youtube :: "string \<Rightarrow> axios_result"
  post_anthropic :: "string option \<Rightarrow> string \<Rightarrow> axios_result"

record ui =
  youtubeUrl :: string
  processing :: bool
  rawTranscript :: "string option"
  cleanedTranscript :: "string option"
  videoTitle :: "string option"
  usedWhisper :: bool
  error :: "string option"
  currentStep :: string

definition cleaning_task :: string where
  \<open>cleaning_task = join [CHR 0x0A]
     [''You are an expert in analyzing long form content. Clean up this raw video transcript to prepare it as an article draft.'',
      [],
      ''Your tasks:'',
      ''1. Remove video-specific references: "video", "subscribe", "like the video", "like button", "watch", "channel"'',
      ''2. Remove chatter and small talk unrelated to the main topic'',
      ''3. Remove ALL commercial content, advertisements, and promotional material:'',
      ''   - Sponsored product mentions'',
      ''   - Discount codes and affiliate links'',
      ''   - Sponsor shoutouts'',
      ''   - Self-promotion of services/products'',
      ''   - Calls to action for purchasing'',
      ''4. Keep only the substantive educational or informational content'',
      ''5. Organize the content into clear paragraphs with logical flow'',
      ''6. Fix grammar and punctuation'',
      ''7. Preserve the original meaning and key insights'',
      [],
      ''Return ONLY the cleaned content, ready to be read as an article. Do not add any meta-commentary about what you did.'']\<close>

text \<open>What \<open>await axios.post(...)\<close> evaluates to: the data, or \<open>None\<close> when it throws.\<close>

definition resolved :: "axios_result \<Rightarrow> response_data option" where
  "resolved r =
     (case r of
        NoResponse e \<Rightarrow> None
      | HttpResponse st d \<Rightarrow> if 200 \<le> st \<and> st < 300 then Some d else None)"

text \<open>The \<open>catch (err)\<close> block: the message passed to \<open>setError\<close>.\<close>

definition catch_message :: "axios_result \<Rightarrow> string" where
  "catch_message r =
     (case r of
        HttpResponse st d \<Rightarrow>
          (case data_error d of
             None \<Rightarrow> ''Failed to process video''
           | Some e \<Rightarrow> if e = [] then ''Failed to process video'' else e)
      | NoResponse (Error m st cd) \<Rightarrow> m
      | NoResponse NonError \<Rightarrow> ''An error occurred'')"

text \<open>The \<open>finally\<close> block.\<close>

definition finish :: "ui \<Rightarrow> ui" where
  "finish u = u\<lparr>processing := False, currentStep := []\<rparr>"

definition handleSubmit :: "backend \<Rightarrow> ui \<Rightarrow> ui \<times> request list" where
  "handleSubmit b u =
     (if trim (youtubeUrl u) = [] then (u\<lparr>error := Some ''Please enter a YouTube URL''\<rparr>, [])
      else
        let u1 = u\<lparr>processing := True, error := None, rawTranscript := None,
                   cleanedTranscript := None, videoTitle := None, usedWhisper := False,
                   currentStep := ''Fetching transcript...''\<rparr>
        in case resolved (post_youtube b (youtubeUrl u)) of
             None \<Rightarrow>
               (finish (u1\<lparr>error := Some (catch_message (post_youtube b (youtubeUrl u)))\<rparr>),
                [PostYoutube (youtubeUrl u)])
           | Some d \<Rightarrow>
               let u2 = u1\<lparr>rawTranscript := data_content d, videoTitle := data_title d,
                          usedWhisper := (case data_usedWhisper d of Some w \<Rightarrow> w | None \<Rightarrow> False),
                          currentStep := ''Cleaning transcript with AI...''\<rparr>
               in case resolved (post_anthropic b (data_content d) cleaning_task) of
                    None \<Rightarrow>
                      (finish (u2\<lparr>error :=
                          Some (catch_message (post_anthropic b (data_content d) cleaning_task))\<rparr>),
                       [PostYoutube (youtubeUrl u), PostAnthropic (data_content d) cleaning_task])
                  | Some d' \<Rightarrow>
                      (finish (u2\<lparr>cleanedTranscript := data_result d',
                                  currentStep := ''Complete!''\<rparr>),
                       [PostYoutube (youtubeUrl u), PostAnthropic (data_content d) cleaning_task]))"

definition handleReset :: "ui \<Rightarrow> ui" where
  "handleReset u =
     u\<lparr>youtubeUrl := [], rawTranscript := None, cleanedTranscript := None, videoTitle := None,
       usedWhisper := False, error := None, currentStep := []\<rparr>"

section \<open>Vocabulary of the properties\<close>

text \<open>
  Where a URL's identifier starts and ends, for the statements about \<open>extractVideoId\<close>:
  no marker of the first pattern begins at a position before \<open>n\<close>, and the text after
  the identifier is empty or begins with one of \<open>&\<close>, line feed, \<open>?\<close>, \<open>#\<close>.
\<close>

definition no_marker_before :: "string \<Rightarrow> nat \<Rightarrow> bool" where
  "no_marker_before url n = (\<forall>i\<in>{..<n}. \<forall>m\<in>set url_markers. \<not> startsWith (drop i url) m)"

definition ends_identifier :: "string \<Rightarrow> bool" where
  "ends_identifier rest = (rest = [] \<or> id_stop (hd rest))"


text \<open>
  The causes of a failing invocation: no identifier can be got from the request, or the
  fallback cannot be set up on this host (credential missing or malformed, \<open>yt-dlp\<close>
  missing).
\<close>

definition malformed_input :: "string option \<Rightarrow> bool" where
  "malformed_input body =
     (case body of None \<Rightarrow> True | Some url \<Rightarrow> url = [] \<or> extractVideoId url = None)"

definition config_failure :: "host \<Rightarrow> bool" where
  "config_failure h = (validateOpenAIKey (OPENAI_API_KEY h) \<noteq> None \<or> \<not> which_yt_dlp h)"

text \<open>
  The status code for an error thrown inside the fallback: 401 when it carries status
  401, the code \<open>invalid_api_key\<close> or a message that mentions \<open>API key\<close>; otherwise
  429 when it carries status 429 or a message that mentions \<open>rate limit\<close>; otherwise 500.
\<close>

definition thrown_status :: "thrown \<Rightarrow> nat" where
  "thrown_status e =
     (case e of
        NonError \<Rightarrow> 500
      | Error m st cd \<Rightarrow>
          if st = Some 401 \<or> cd = Some ''invalid_api_key'' \<or> str_includes m ''API key'' then 401
          else if st = Some 429 \<or> str_includes m ''rate limit'' then 429
          else 500)"

text \<open>
  The words of a text, for the statement about the native-caption text: the maximal runs
  of characters that are not whitespace, in their order.
\<close>

function ws_words :: "string \<Rightarrow> string list" where
  "ws_words [] = []"
| "ws_words (c # cs) =
     (if is_space c then ws_words cs
      else (c # takeWhile (\<lambda>x. \<not> is_space x) cs) # ws_words (dropWhile (\<lambda>x. \<not> is_space x) cs))"
  by pat_completeness auto
termination
  by (relation "measure length") (auto simp: less_Suc_eq_le length_dropWhile_le)

section \<open>Sample hosts and inputs\<close>

definition idle :: state where
  "idle = \<lparr>files = {}, calls = []\<rparr>"

definition sample_url :: string where
  "sample_url = ''https://www.youtube.com/watch?v=abc12345678''"

definition sample_items :: "transcript_item list" where
  "sample_items =
     [\<lparr>item_text = ''Hello   and welcome to this''\<rparr>,
      \<lparr>item_text = '' video about  formal verification of programs. ''\<rparr>]"

definition sample_speech :: string where
  "sample_speech = ''  So  today we   look at how the temporary file is handled, start to end.  ''"

definition sample_tempFile :: string where
  "sample_tempFile = ''/tmp/whisper_audio_1730000000123.mp3''"

text \<open>A host where the captions library answers; the fallback is not configured.\<close>

definition captions_host :: host where
  "captions_host =
     \<lparr>OPENAI_API_KEY = None,
      fetchTranscript = (\<lambda>videoId. Returns sample_items),
      which_yt_dlp = False,
      yt_dlp_dump_json = (\<lambda>url. Throws NonError),
      yt_dlp_download = (\<lambda>url path. (False, Some NonError)),
      whisper_create = (\<lambda>path. Throws NonError),
      tmpdir = ''/tmp'',
      path_join = (\<lambda>dir name. dir @ ''/'' @ name),
      date_now = 1730000000123,
      fs_unlink = (\<lambda>path. None)\<rparr>"

text \<open>A host where the captions library throws and the whole fallback works.\<close>

definition whisper_host :: host where
  "whisper_host =
     \<lparr>OPENAI_API_KEY = Some ''sk-0123456789abcdefghij'',
      fetchTranscript =
        (\<lambda>videoId. Throws (Error ''Transcript is disabled on this video'' None None)),
      which_yt_dlp = True,
      yt_dlp_dump_json =
        (\<lambda>url. Returns \<lparr>info_title = ''A recorded talk'', info_duration = 754,
                          info_id = ''abc12345678''\<rparr>),
      yt_dlp_download = (\<lambda>url path. (True, None)),
      whisper_create = (\<lambda>path. Returns sample_speech),
      tmpdir = ''/tmp'',
      path_join = (\<lambda>dir name. dir @ ''/'' @ name),
      date_now = 1730000000123,
      fs_unlink = (\<lambda>path. None)\<rparr>"

text \<open>A text-generation service that answers with two text blocks.\<close>

definition cleaner_sample :: cleaner_host where
  "cleaner_sample =
     \<lparr>ANTHROPIC_API_KEY = Some ''sk-ant-0123456789'',
      messages_create =
        (\<lambda>params. Returns [TextBlock ''  Formal verification,  explained.  '', TextBlock ''(more)''])\<rparr>"

text \<open>
  The two routes as the page reaches them: \<open>NextResponse.json\<close> sends status 200 unless
  a status is given, and each invocation starts from the host as it is.
\<close>

definition resolver_http :: "response \<Rightarrow> axios_result" where
  "resolver_http r =
     (case r of
        Success content title w \<Rightarrow>
          HttpResponse 200
            \<lparr>data_content = Some content, data_title = Some title, data_usedWhisper = Some w,
             data_result = None, data_error = None\<rparr>
      | Failure st msg \<Rightarrow>
          HttpResponse st
            \<lparr>data_content = None, data_title = None, data_usedWhisper = None,
             data_result = None, data_error = Some msg\<rparr>)"

definition cleaner_http :: "clean_response \<Rightarrow> axios_result" where
  "cleaner_http r =
     (case r of
        Cleaned res \<Rightarrow>
          HttpResponse 200
            \<lparr>data_content = None, data_title = None, data_usedWhisper = None,
             data_result = res, data_error = None\<rparr>
      | CleanFailure st msg \<Rightarrow>
          HttpResponse st
            \<lparr>data_content = None, data_title = None, data_usedWhisper = None,
             data_result = None, data_error = Some msg\<rparr>)"

definition served_by :: "host \<Rightarrow> cleaner_host \<Rightarrow> backend" where
  "served_by h ch =
     \<lparr>post_youtube = (\<lambda>url. resolver_http (fst (youtube_POST h (Some url) idle))),
      post_anthropic = (\<lambda>content task. cleaner_http (fst (anthropic_POST ch content (Some task) [])))\<rparr>"

definition fresh_page :: "string \<Rightarrow> ui" where
  "fresh_page url =
     \<lparr>youtubeUrl = url, processing = False, rawTranscript = None, cleanedTranscript = None,
      videoTitle = None, usedWhisper = False, error = None, currentStep = []\<rparr>"

section \<open>The identifier extractor: what each pattern returns\<close>

lemma startsWith_append: "startsWith (p @ r) p"
  by (induction p) simp_all

lemma startsWith_iff: "startsWith s p \<longleftrightarrow> (\<exists>r. s = p @ r)"
proof (induction s p rule: startsWith.induct)
  case (1 s) show ?case by simp
next
  case (2 p ps) show ?case by simp
next
  case (3 c cs p ps) then show ?case by auto
qed

lemma capture_run_empty_iff: "capture_run t = [] \<longleftrightarrow> ends_identifier t"
  by (cases t) (simp_all add: capture_run_def ends_identifier_def)

lemma capture_run_ident:
  assumes "\<forall>c\<in>set ident. \<not> id_stop c" and "ends_identifier rest"
  shows "capture_run (ident @ rest) = ident"
proof (cases rest)
  case Nil
  with assms(1) show ?thesis by (simp add: capture_run_def)
next
  case (Cons r rs)
  with assms show ?thesis by (simp add: capture_run_def ends_identifier_def takeWhile_tail)
qed

lemma match_alternatives_None_iff:
  "match_alternatives ms s = None \<longleftrightarrow>
     (\<forall>m\<in>set ms. startsWith s m \<longrightarrow> capture_run (drop (length m) s) = [])"
  by (induction ms) auto

lemma match_alternatives_marker:
  assumes "m \<in> set url_markers" and "ident \<noteq> []"
    and "\<forall>c\<in>set ident. \<not> id_stop c" and "ends_identifier rest"
  shows "match_alternatives url_markers (m @ ident @ rest) = Some ident"
proof -
  have cap: "capture_run (ident @ rest) = ident"
    using assms(3,4) by (rule capture_run_ident)
  from assms(1) consider "m = ''youtube.com/watch?v=''" | "m = ''youtu.be/''"
    | "m = ''youtube.com/embed/''" | "m = ''youtube.com/v/''"
    by (auto simp: url_markers_def)
  then show ?thesis
  proof cases
    case 1 then show ?thesis using cap assms(2) by (simp add: url_markers_def)
  next
    case 2 then show ?thesis using cap assms(2) by (simp add: url_markers_def)
  next
    case 3 then show ?thesis using cap assms(2) by (simp add: url_markers_def)
  next
    case 4 then show ?thesis using cap assms(2) by (simp add: url_markers_def)
  qed
qed

text \<open>The search skips every start position at which no alternative matches.\<close>

lemma search_url_pattern_skip:
  assumes "\<forall>i<length pre. match_alternatives url_markers (drop i (pre @ t)) = None"
    and "match_alternatives url_markers t = Some v"
  shows "search_url_pattern (pre @ t) = Some v"
  using assms
proof (induction pre)
  case Nil
  then show ?case by (cases t) simp_all
next
  case (Cons c pre)
  from Cons.prems(1) have "match_alternatives url_markers (drop 0 ((c # pre) @ t)) = None"
    by blast
  then have here: "match_alternatives url_markers (c # pre @ t) = None" by simp
  have "\<forall>i<length pre. match_alternatives url_markers (drop i (pre @ t)) = None"
  proof (intro allI impI)
    fix i assume "i < length pre"
    then have "Suc i < length (c # pre)" by simp
    with Cons.prems(1) have "match_alternatives url_markers (drop (Suc i) ((c # pre) @ t)) = None"
      by blast
    then show "match_alternatives url_markers (drop i (pre @ t)) = None" by simp
  qed
  with Cons.IH Cons.prems(2) have "search_url_pattern (pre @ t) = Some v" by blast
  with here show ?case by simp
qed

lemma search_url_pattern_None_iff:
  "search_url_pattern url = None \<longleftrightarrow>
     (\<forall>i\<le>length url. match_alternatives url_markers (drop i url) = None)"
proof (induction url)
  case Nil
  show ?case by simp
next
  case (Cons c cs)
  have "(\<forall>i\<le>length (c # cs). match_alternatives url_markers (drop i (c # cs)) = None) \<longleftrightarrow>
        match_alternatives url_markers (c # cs) = None \<and>
        (\<forall>i\<le>length cs. match_alternatives url_markers (drop i cs) = None)"
    (is "?L \<longleftrightarrow> ?H \<and> ?T")
  proof
    assume L: ?L
    then have "match_alternatives url_markers (drop 0 (c # cs)) = None" by blast
    moreover have ?T
    proof (intro allI impI)
      fix i assume "i \<le> length cs"
      then have "Suc i \<le> length (c # cs)" by simp
      with L have "match_alternatives url_markers (drop (Suc i) (c # cs)) = None" by blast
      then show "match_alternatives url_markers (drop i cs) = None" by simp
    qed
    ultimately show "?H \<and> ?T" by simp
  next
    assume HT: "?H \<and> ?T"
    show ?L
    proof (intro allI impI)
      fix i assume "i \<le> length (c # cs)"
      then show "match_alternatives url_markers (drop i (c # cs)) = None"
        using HT by (cases i) simp_all
    qed
  qed
  with Cons.IH show ?case by (simp split: option.splits)
qed

lemma no_marker_before_match:
  assumes "no_marker_before (pre @ t) (length pre)"
  shows "\<forall>i<length pre. match_alternatives url_markers (drop i (pre @ t)) = None"
  using assms by (auto simp: no_marker_before_def match_alternatives_None_iff)

text \<open>Every marker holds a slash, and no character of a bare identifier is one.\<close>

lemma marker_has_slash:
  assumes "m \<in> set url_markers" and "startsWith s m"
  shows "CHR ''/'' \<in> set s"
proof -
  from assms(2) obtain r where "s = m @ r" by (auto simp: startsWith_iff)
  moreover from assms(1) have "CHR ''/'' \<in> set m" by (auto simp: url_markers_def)
  ultimately show ?thesis by simp
qed

lemma slash_not_id_char: "\<not> is_id_char CHR ''/''"
  by (simp add: is_id_char_def in_range_def)

lemma search_url_pattern_bare:
  assumes "list_all is_id_char s"
  shows "search_url_pattern s = None"
proof -
  have "\<not> startsWith (drop i s) m" if "m \<in> set url_markers" for i m
  proof
    assume "startsWith (drop i s) m"
    with that have "CHR ''/'' \<in> set (drop i s)" by (rule marker_has_slash)
    then have "CHR ''/'' \<in> set s" by (rule in_set_dropD)
    with assms have "is_id_char CHR ''/''" by (simp add: list_all_iff)
    then show False using slash_not_id_char by blast
  qed
  then show ?thesis
    by (simp add: search_url_pattern_None_iff match_alternatives_None_iff)
qed

lemma marker_position_iff:
  "(\<exists>i\<le>length url. startsWith (drop i url) m \<and> \<not> ends_identifier (drop (i + length m) url))
     \<longleftrightarrow> (\<exists>pre rest. url = pre @ m @ rest \<and> \<not> ends_identifier rest)"
proof
  assume "\<exists>i\<le>length url. startsWith (drop i url) m \<and> \<not> ends_identifier (drop (i + length m) url)"
  then obtain i where i: "i \<le> length url" "startsWith (drop i url) m"
    and e: "\<not> ends_identifier (drop (i + length m) url)" by blast
  from i(2) obtain r where r: "drop i url = m @ r" by (auto simp: startsWith_iff)
  then have "url = take i url @ m @ r" by (metis append_take_drop_id)
  moreover have "drop (i + length m) url = r"
    using r by (metis add.commute append_eq_conv_conj drop_drop)
  ultimately show "\<exists>pre rest. url = pre @ m @ rest \<and> \<not> ends_identifier rest"
    using e by metis
next
  assume "\<exists>pre rest. url = pre @ m @ rest \<and> \<not> ends_identifier rest"
  then obtain pre rest where u: "url = pre @ m @ rest" and e: "\<not> ends_identifier rest" by blast
  have "length pre \<le> length url" using u by simp
  moreover have "startsWith (drop (length pre) url) m" using u by (simp add: startsWith_append)
  moreover have "drop (length pre + length m) url = rest" using u by simp
  ultimately show "\<exists>i\<le>length url. startsWith (drop i url) m
      \<and> \<not> ends_identifier (drop (i + length m) url)"
    using e by metis
qed

lemma extractVideoId_None_iff:
  "extractVideoId url = None \<longleftrightarrow>
     (\<forall>pre m rest. m \<in> set url_markers \<and> url = pre @ m @ rest \<longrightarrow> ends_identifier rest)
     \<and> \<not> (length url = 11 \<and> list_all is_id_char url)"
proof -
  have "extractVideoId url = None \<longleftrightarrow>
          search_url_pattern url = None \<and> match_bare_id url = None"
    by (simp add: extractVideoId_def split: option.splits)
  moreover have "match_bare_id url = None \<longleftrightarrow> \<not> (length url = 11 \<and> list_all is_id_char url)"
    by (simp add: match_bare_id_def)
  moreover have "search_url_pattern url = None \<longleftrightarrow>
     (\<forall>m\<in>set url_markers. \<not> (\<exists>i\<le>length url. startsWith (drop i url) m
          \<and> \<not> ends_identifier (drop (i + length m) url)))"
    by (auto simp: search_url_pattern_None_iff match_alternatives_None_iff
        capture_run_empty_iff add.commute)
  moreover have "(\<forall>m\<in>set url_markers. \<not> (\<exists>i\<le>length url. startsWith (drop i url) m
          \<and> \<not> ends_identifier (drop (i + length m) url))) \<longleftrightarrow>
     (\<forall>pre m rest. m \<in> set url_markers \<and> url = pre @ m @ rest \<longrightarrow> ends_identifier rest)"
    unfolding marker_position_iff by blast
  ultimately show ?thesis by simp
qed

lemma extractVideoId_nonempty:
  assumes "extractVideoId url = Some videoId"
  shows "videoId \<noteq> []"
proof (cases "search_url_pattern url")
  case None
  with assms show ?thesis
    by (auto simp: extractVideoId_def match_bare_id_def split: if_splits)
next
  case (Some v)
  have nonempty: "match_alternatives ms s = Some w \<Longrightarrow> w \<noteq> []" for ms s w
    by (induction ms) (auto split: if_splits)
  have "search_url_pattern u = Some w \<Longrightarrow> w \<noteq> []" for u w
  proof (induction u)
    case Nil
    then show ?case using nonempty by simp
  next
    case (Cons c cs)
    then show ?case using nonempty by (auto split: option.splits)
  qed
  with Some assms show ?thesis by (simp add: extractVideoId_def)
qed

text \<open>
  Claim C1, as the code has it. In a string where the first marker
  (\<open>youtube.com/watch?v=\<close>, \<open>youtu.be/\<close>, \<open>youtube.com/embed/\<close> or \<open>youtube.com/v/\<close>) is
  followed by a non-empty run \<open>ident\<close> of characters other than \<open>&\<close>, line feed, \<open>?\<close> and
  \<open>#\<close>, which ends the string or is followed by one of these four, \<open>extractVideoId\<close>
  returns exactly \<open>ident\<close>, whatever its length. A bare string of 11 characters of
  \<open>[a-zA-Z0-9_-]\<close> is returned as it is. The extractor returns nothing exactly when
  every marker in the string is followed by the end of the string or by one of the four
  characters and the string is not such a bare identifier; the resolver then answers with
  status 400 and makes no external call.
\<close>

theorem extractVideoId_shapes:
  "(m \<in> set url_markers \<and> ident \<noteq> [] \<and> (\<forall>c\<in>set ident. \<not> id_stop c) \<and> ends_identifier rest
      \<and> no_marker_before (pre @ m @ ident @ rest) (length pre)
      \<longrightarrow> extractVideoId (pre @ m @ ident @ rest) = Some ident) \<and>
   (length bare = 11 \<and> list_all is_id_char bare \<longrightarrow> extractVideoId bare = Some bare) \<and>
   (extractVideoId url = None \<longleftrightarrow>
      (\<forall>pre m rest. m \<in> set url_markers \<and> url = pre @ m @ rest \<longrightarrow> ends_identifier rest)
      \<and> \<not> (length url = 11 \<and> list_all is_id_char url)) \<and>
   (extractVideoId url = None \<longrightarrow>
      youtube_POST h (Some url) s =
        (Failure 400 (if url = [] then ''No URL provided'' else ''Invalid YouTube URL''), s))"
proof (intro conjI impI)
  assume a: "m \<in> set url_markers \<and> ident \<noteq> [] \<and> (\<forall>c\<in>set ident. \<not> id_stop c)
      \<and> ends_identifier rest \<and> no_marker_before (pre @ m @ ident @ rest) (length pre)"
  then have hit: "match_alternatives url_markers (m @ ident @ rest) = Some ident"
    by (intro match_alternatives_marker) simp_all
  from a have "\<forall>i<length pre. match_alternatives url_markers (drop i (pre @ m @ ident @ rest)) = None"
    by (intro no_marker_before_match) simp
  then have "search_url_pattern (pre @ m @ ident @ rest) = Some ident"
    using hit by (rule search_url_pattern_skip)
  then show "extractVideoId (pre @ m @ ident @ rest) = Some ident"
    by (simp add: extractVideoId_def)
next
  assume "length bare = 11 \<and> list_all is_id_char bare"
  then show "extractVideoId bare = Some bare"
    by (simp add: extractVideoId_def search_url_pattern_bare match_bare_id_def)
next
  show "extractVideoId url = None \<longleftrightarrow>
      (\<forall>pre m rest. m \<in> set url_markers \<and> url = pre @ m @ rest \<longrightarrow> ends_identifier rest)
      \<and> \<not> (length url = 11 \<and> list_all is_id_char url)"
    by (rule extractVideoId_None_iff)
next
  assume "extractVideoId url = None"
  then show "youtube_POST h (Some url) s =
        (Failure 400 (if url = [] then ''No URL provided'' else ''Invalid YouTube URL''), s)"
    by (simp add: youtube_POST_def)
qed

theorem extractVideoId_shapes_witness:
  "extractVideoId ''https://www.youtube.com/watch?v=abc12345678&t=10'' = Some ''abc12345678'' \<and>
   extractVideoId ''abc12345678'' = Some ''abc12345678'' \<and>
   extractVideoId ''not a video'' = None \<and>
   youtube_POST captions_host (Some ''not a video'') idle = (Failure 400 ''Invalid YouTube URL'', idle)"
proof -
  have h1: "''youtube.com/watch?v='' \<in> set url_markers \<and> ''abc12345678'' \<noteq> []
      \<and> (\<forall>c\<in>set ''abc12345678''. \<not> id_stop c) \<and> ends_identifier ''&t=10''
      \<and> no_marker_before (''https://www.'' @ ''youtube.com/watch?v='' @ ''abc12345678'' @ ''&t=10'')
            (length ''https://www.'')"
    by code_simp
  have h2: "length ''abc12345678'' = 11 \<and> list_all is_id_char ''abc12345678''"
    by code_simp
  have h3: "(\<forall>pre m rest. m \<in> set url_markers \<and> ''not a video'' = pre @ m @ rest
          \<longrightarrow> ends_identifier rest)
      \<and> \<not> (length ''not a video'' = 11 \<and> list_all is_id_char ''not a video'')"
  proof -
    have "\<not> (m \<in> set url_markers \<and> ''not a video'' = pre @ m @ rest)" for pre m rest
    proof
      assume a: "m \<in> set url_markers \<and> ''not a video'' = pre @ m @ rest"
      then have "CHR ''/'' \<in> set (m @ rest)"
        using marker_has_slash startsWith_append by blast
      then have "CHR ''/'' \<in> set (pre @ m @ rest)" by simp
      with a have "CHR ''/'' \<in> set ''not a video''" by simp
      then show False by simp
    qed
    moreover have "\<not> list_all is_id_char ''not a video''" by code_simp
    ultimately show ?thesis by blast
  qed
  note t = extractVideoId_shapes[where m = "''youtube.com/watch?v=''" and ident = "''abc12345678''"
      and rest = "''&t=10''" and pre = "''https://www.''" and bare = "''abc12345678''"
      and url = "''not a video''" and h = captions_host and s = idle]
  note t1 = mp[OF conjunct1[OF t] h1]
  note t2 = mp[OF conjunct1[OF conjunct2[OF t]] h2]
  note t3 = iffD2[OF conjunct1[OF conjunct2[OF conjunct2[OF t]]] h3]
  note t4 = mp[OF conjunct2[OF conjunct2[OF conjunct2[OF t]]] t3]
  from t1 t2 t3 t4 show ?thesis by simp
qed

text \<open>
  Claim C1 as stated fails: after \<open>youtu.be/\<close> the extractor takes the three characters
  \<open>abc\<close>, which is not an 11-character identifier, and the resolver goes on to the
  captions library with it instead of answering 400.
\<close>

theorem extractVideoId_short_identifier:
  "extractVideoId ''https://youtu.be/abc'' = Some ''abc'' \<and> length ''abc'' \<noteq> 11 \<and>
   fst (youtube_POST captions_host (Some ''https://youtu.be/abc'') idle)
     = Success ''Hello and welcome to this video about formal verification of programs.''
         ''YouTube Video abc'' False"
  by code_simp

section \<open>Files and external calls of a resolver invocation\<close>

lemma calls_called [simp]: "calls (called c s) = calls s @ [c]"
  by (simp add: called_def)

lemma files_called [simp]: "files (called c s) = files s"
  by (simp add: called_def)















section \<open>The paths through the resolver\<close>

lemma validateOpenAIKey_Error:
  "validateOpenAIKey k = Some e \<Longrightarrow> \<exists>m. e = Error m None None"
  by (auto simp: validateOpenAIKey_def split: option.splits if_splits)

lemma youtube_POST_paths:
  assumes "youtube_POST h body s = (r, s')"
  obtains (no_url) "body = None \<or> body = Some []" "r = Failure 400 ''No URL provided''" "s' = s"
  | (invalid) url where "body = Some url" "url \<noteq> []" "extractVideoId url = None"
      "r = Failure 400 ''Invalid YouTube URL''" "s' = s"
  | (native) url videoId transcriptItems where "body = Some url" "url \<noteq> []"
      "extractVideoId url = Some videoId" "fetchTranscript h videoId = Returns transcriptItems"
      "transcriptItems \<noteq> []" "50 \<le> length (native_transcript transcriptItems)"
      "r = Success (native_transcript transcriptItems) (''YouTube Video '' @ videoId) False"
      "s' = called (FetchTranscript videoId) s"
  | (fallback) url videoId where "body = Some url" "url \<noteq> []"
      "extractVideoId url = Some videoId"
      "native_step h videoId (''YouTube Video '' @ videoId) = None"
      "fallback h url (called (FetchTranscript videoId) s) = (r, s')"
proof (cases body)
  case None
  with assms show ?thesis by (intro no_url) (simp_all add: youtube_POST_def)
next
  case (Some url)
  note b = this
  show ?thesis
  proof (cases "url = []")
    case True
    with assms b show ?thesis by (intro no_url) (simp_all add: youtube_POST_def)
  next
    case nz: False
    show ?thesis
    proof (cases "extractVideoId url")
      case None
      with assms b nz show ?thesis by (intro invalid[of url]) (simp_all add: youtube_POST_def)
    next
      case (Some videoId)
      note v = this
      then have vz: "videoId \<noteq> []" by (rule extractVideoId_nonempty)
      show ?thesis
      proof (cases "native_step h videoId (''YouTube Video '' @ videoId)")
        case None
        with assms b nz v vz show ?thesis
          by (intro fallback[of url videoId]) (simp_all add: youtube_POST_def)
      next
        case (Some resp)
        then obtain transcriptItems where f: "fetchTranscript h videoId = Returns transcriptItems"
          and i: "transcriptItems \<noteq> []" "50 \<le> length (native_transcript transcriptItems)"
          and resp: "resp = Success (native_transcript transcriptItems) (''YouTube Video '' @ videoId) False"
          by (auto simp: native_step_def split: outcome.splits if_splits)
        from assms b nz v vz Some resp show ?thesis
          by (intro native[of url videoId transcriptItems]) (simp_all add: youtube_POST_def f i)
      qed
    qed
  qed
qed

lemma fallback_paths:
  assumes "fallback h url s = (r, s')"
  obtains (no_key) "OPENAI_API_KEY h = None \<or> OPENAI_API_KEY h = Some []"
      "r = Failure 500 ''No transcript available for this video, and OpenAI API key is not configured for Whisper fallback. Please add OPENAI_API_KEY to your .env.local file.''"
      "s' = s"
  | (bad_key) k m where "OPENAI_API_KEY h = Some k" "k \<noteq> []"
      "validateOpenAIKey (Some k) = Some (Error m None None)" "r = Failure 500 m" "s' = s"
  | (no_yt_dlp) "validateOpenAIKey (OPENAI_API_KEY h) = None" "\<not> which_yt_dlp h"
      "r = Failure 500 ''No transcript available. Whisper fallback requires yt-dlp to be installed (brew install yt-dlp).''"
      "s' = called WhichYtDlp s"
  | (whisper) "validateOpenAIKey (OPENAI_API_KEY h) = None" "which_yt_dlp h"
      "whisper_step h url (called WhichYtDlp s) = (r, s')"
proof (cases "OPENAI_API_KEY h = None \<or> OPENAI_API_KEY h = Some []")
  case True
  with assms show ?thesis by (intro no_key) (simp_all add: fallback_def)
next
  case False
  then obtain k where k: "OPENAI_API_KEY h = Some k" "k \<noteq> []" by auto
  show ?thesis
  proof (cases "validateOpenAIKey (OPENAI_API_KEY h)")
    case (Some e)
    then obtain m where e: "e = Error m None None" using validateOpenAIKey_Error by blast
    with assms k Some show ?thesis by (intro bad_key[of k m]) (simp_all add: fallback_def)
  next
    case None
    show ?thesis
    proof (cases "which_yt_dlp h")
      case True
      with assms k None show ?thesis by (intro whisper) (simp_all add: fallback_def)
    next
      case False
      with assms k None show ?thesis by (intro no_yt_dlp) (simp_all add: fallback_def)
    qed
  qed
qed

lemma whisper_step_paths:
  assumes "whisper_step h url s = (r, s')"
  obtains (threw) e where "whisper_attempt h url s = (Throws e, s')" "r = whisper_catch e"
  | (returned) transcript title where "whisper_attempt h url s = (Returns (transcript, title), s')"
      "r = Success transcript title True"
proof (cases "whisper_attempt h url s")
  case (Pair a s1)
  show ?thesis
  proof (cases a)
    case (Throws e)
    with assms Pair show ?thesis by (intro threw[of e]) (simp_all add: whisper_step_def)
  next
    case (Returns p)
    then obtain transcript title where p: "a = Returns (transcript, title)" by (cases p) simp
    with assms Pair have "r = Success transcript title True" "s1 = s'"
      by (auto simp: whisper_step_def)
    with Pair p show ?thesis by (intro returned[of transcript title]) simp_all
  qed
qed

lemma whisper_attempt_Returns:
  assumes "whisper_attempt h url s = (Returns (transcript, title), s')"
  shows "transcribeWithWhisper h url s = (Returns (transcript, title), s') \<and> 50 \<le> length transcript"
proof (cases "transcribeWithWhisper h url s")
  case (Pair a s1)
  with assms show ?thesis
    by (cases a) (auto simp: whisper_attempt_def split: if_splits)
qed

lemma whisper_try_Returns:
  assumes "whisper_try h url p info s = (Returns (transcript, title), s')"
  shows "whisper_create h p = Returns transcript \<and> title = info_title info"
proof (cases "downloadAudio h url p s")
  case (Pair d s1)
  with assms show ?thesis
    by (cases d) (auto simp: whisper_try_def split: outcome.splits)
qed

lemma getVideoInfo_Returns:
  "getVideoInfo h url s = (Returns info, s') \<Longrightarrow> yt_dlp_dump_json h url = Returns info"
  by (auto simp: getVideoInfo_def split: outcome.splits thrown.splits)

lemma transcribeWithWhisper_Returns:
  assumes "transcribeWithWhisper h url s = (Returns (transcript, title), s')"
  shows "\<exists>info. yt_dlp_dump_json h url = Returns info \<and> title = info_title info \<and>
           whisper_create h (tempFile_path h) = Returns transcript"
proof (cases "validateOpenAIKey (OPENAI_API_KEY h)")
  case (Some e)
  with assms show ?thesis by (simp add: transcribeWithWhisper_def)
next
  case None
  show ?thesis
  proof (cases "getVideoInfo h url s")
    case (Pair g s1)
    show ?thesis
    proof (cases g)
      case (Throws e)
      with assms None Pair show ?thesis by (simp add: transcribeWithWhisper_def)
    next
      case (Returns info)
      with Pair have i: "yt_dlp_dump_json h url = Returns info" by (simp add: getVideoInfo_Returns)
      obtain w s2 where w: "whisper_try h url (tempFile_path h) info s1 = (w, s2)"
        by (cases "whisper_try h url (tempFile_path h) info s1")
      obtain e s3 where c: "cleanup h (tempFile_path h) s2 = (e, s3)"
        by (cases "cleanup h (tempFile_path h) s2")
      from assms None Pair Returns w c have "w = Returns (transcript, title)"
        by (cases e) (simp_all add: transcribeWithWhisper_def)
      with w have "whisper_create h (tempFile_path h) = Returns transcript \<and> title = info_title info"
        using whisper_try_Returns by blast
      with i show ?thesis by blast
    qed
  qed
qed

lemma fallback_Success:
  assumes "fallback h url s = (Success content title w, s')"
  shows "w \<and> 50 \<le> length content \<and>
         (\<exists>info. yt_dlp_dump_json h url = Returns info \<and> title = info_title info) \<and>
         whisper_create h (tempFile_path h) = Returns content"
  using assms
proof (cases rule: fallback_paths)
  case whisper
  have nf: "whisper_catch e \<noteq> Success content title w" for e
    by (cases e) (simp_all add: whisper_catch_def)
  from whisper(3) show ?thesis
  proof (cases rule: whisper_step_paths)
    case (threw e)
    with nf[of e] show ?thesis by simp
  next
    case (returned transcript title')
    then have eq: "transcript = content" "title' = title" "w" by simp_all
    from returned(1) have "transcribeWithWhisper h url (called WhichYtDlp s) = (Returns (transcript, title'), s')
        \<and> 50 \<le> length transcript" by (rule whisper_attempt_Returns)
    with eq show ?thesis using transcribeWithWhisper_Returns by blast
  qed
qed simp_all

text \<open>
  Claim C3, as the code has it. Every success of the native-caption path (the responses
  with \<open>usedWhisper = false\<close>) carries the title \<open>"YouTube Video "\<close> followed by the
  extracted identifier.
\<close>

theorem native_title_placeholder:
  assumes "youtube_POST h body s = (Success content title False, s')"
  shows "\<exists>url videoId. body = Some url \<and> extractVideoId url = Some videoId \<and>
           title = ''YouTube Video '' @ videoId"
  using assms
proof (cases rule: youtube_POST_paths)
  case (native url videoId transcriptItems)
  then show ?thesis by simp
next
  case (fallback url videoId)
  from fallback(5) have False using fallback_Success by blast
  then show ?thesis ..
qed simp_all

theorem native_title_placeholder_witness:
  "youtube_POST captions_host (Some sample_url) idle =
     (Success ''Hello and welcome to this video about formal verification of programs.''
        ''YouTube Video abc12345678'' False,
      \<lparr>files = {}, calls = [FetchTranscript ''abc12345678'']\<rparr>) \<and>
   (\<exists>url videoId. Some sample_url = Some url \<and> extractVideoId url = Some videoId \<and>
      ''YouTube Video abc12345678'' = ''YouTube Video '' @ videoId)"
proof -
  have r: "youtube_POST captions_host (Some sample_url) idle =
     (Success ''Hello and welcome to this video about formal verification of programs.''
        ''YouTube Video abc12345678'' False,
      \<lparr>files = {}, calls = [FetchTranscript ''abc12345678'']\<rparr>)"
    by code_simp
  show ?thesis by (rule conjI[OF r native_title_placeholder[OF r]])
qed

text \<open>
  Claim C3 as stated fails: for \<open>https://www.youtube.com/watch?v=abc12345678\<close> with a
  working captions source the title is \<open>YouTube Video abc12345678\<close>, not
  \<open>Video abc12345678\<close>.
\<close>

theorem native_title_not_video_prefix:
  "fst (youtube_POST captions_host (Some ''https://www.youtube.com/watch?v=abc12345678'') idle)
     = Success ''Hello and welcome to this video about formal verification of programs.''
         ''YouTube Video abc12345678'' False \<and>
   ''YouTube Video abc12345678'' \<noteq> ''Video '' @ ''abc12345678''"
  by code_simp

text \<open>
  Claim C10. A success of the audio fallback (\<open>usedWhisper = true\<close>) returns as content
  exactly the string the speech-to-text service returned for the temporary file, of
  length at least 50, and as title the one from the metadata probe; nothing is collapsed
  or trimmed.
\<close>

theorem whisper_content_verbatim:
  assumes "youtube_POST h body s = (Success content title True, s')"
  shows "whisper_create h (tempFile_path h) = Returns content \<and> 50 \<le> length content \<and>
         (\<exists>url info. body = Some url \<and> yt_dlp_dump_json h url = Returns info \<and>
            title = info_title info)"
  using assms
proof (cases rule: youtube_POST_paths)
  case (fallback url videoId)
  note f = fallback_Success[OF fallback(5)]
  from f obtain info where "yt_dlp_dump_json h url = Returns info" "title = info_title info"
    by (elim conjE exE)
  with fallback(1) have "\<exists>url info. body = Some url \<and> yt_dlp_dump_json h url = Returns info \<and>
            title = info_title info" by (intro exI conjI)
  with f show ?thesis by (intro conjI) (elim conjE, assumption)+
qed simp_all

theorem whisper_content_verbatim_witness:
  "youtube_POST whisper_host (Some sample_url) idle =
     (Success ''  So  today we   look at how the temporary file is handled, start to end.  ''
        ''A recorded talk'' True,
      \<lparr>files = {},
       calls = [FetchTranscript ''abc12345678'', WhichYtDlp, YtDlpDumpJson sample_url,
                YtDlpDownload sample_url sample_tempFile, WhisperCreate sample_tempFile]\<rparr>) \<and>
   whisper_create whisper_host (tempFile_path whisper_host)
     = Returns ''  So  today we   look at how the temporary file is handled, start to end.  '' \<and>
   trim (replace_ws ''  So  today we   look at how the temporary file is handled, start to end.  '')
     = ''So today we look at how the temporary file is handled, start to end.''"
proof -
  have r: "youtube_POST whisper_host (Some sample_url) idle =
     (Success ''  So  today we   look at how the temporary file is handled, start to end.  ''
        ''A recorded talk'' True,
      \<lparr>files = {},
       calls = [FetchTranscript ''abc12345678'', WhichYtDlp, YtDlpDumpJson sample_url,
                YtDlpDownload sample_url sample_tempFile, WhisperCreate sample_tempFile]\<rparr>)"
    by code_simp
  have n: "trim (replace_ws ''  So  today we   look at how the temporary file is handled, start to end.  '')
     = ''So today we look at how the temporary file is handled, start to end.''"
    by code_simp
  note t = whisper_content_verbatim[OF r]
  show ?thesis by (intro conjI r n conjunct1[OF t])
qed

section \<open>Status codes of the failures\<close>

lemma str_includes_iff: "str_includes s n \<longleftrightarrow> (\<exists>a b. s = a @ n @ b)"
proof (induction s)
  case Nil
  show ?case by auto
next
  case (Cons c cs)
  show ?case
  proof
    assume "str_includes (c # cs) n"
    then consider "startsWith (c # cs) n" | "str_includes cs n" by auto
    then show "\<exists>a b. c # cs = a @ n @ b"
    proof cases
      case 1
      then obtain r where "c # cs = n @ r" by (auto simp: startsWith_iff)
      then have "c # cs = [] @ n @ r" by simp
      then show ?thesis by blast
    next
      case 2
      with Cons.IH obtain a b where "cs = a @ n @ b" by blast
      then have "c # cs = (c # a) @ n @ b" by simp
      then show ?thesis by blast
    qed
  next
    assume "\<exists>a b. c # cs = a @ n @ b"
    then obtain a b where ab: "c # cs = a @ n @ b" by blast
    show "str_includes (c # cs) n"
    proof (cases a)
      case Nil
      with ab have "startsWith (c # cs) n" by (simp add: startsWith_append)
      then show ?thesis by simp
    next
      case (Cons x xs)
      with ab have "cs = xs @ n @ b" by simp
      with Cons.IH have "str_includes cs n" by blast
      then show ?thesis by simp
    qed
  qed
qed

lemma includes_longer_needle:
  assumes "str_includes s (p @ n)"
  shows "str_includes s n"
proof -
  from assms obtain a b where "s = a @ (p @ n) @ b" by (auto simp: str_includes_iff)
  then have "s = (a @ p) @ n @ b" by simp
  then show ?thesis unfolding str_includes_iff by blast
qed

lemma whisper_catch_status: "\<exists>msg. whisper_catch e = Failure (thrown_status e) msg"
proof (cases e)
  case NonError
  then show ?thesis by (simp add: whisper_catch_def thrown_status_def)
next
  case (Error m st cd)
  have "str_includes m ''Incorrect API key'' \<Longrightarrow> str_includes m ''API key''"
    using includes_longer_needle[of m "''Incorrect ''" "''API key''"] by simp
  with Error show ?thesis by (auto simp: whisper_catch_def thrown_status_def)
qed

text \<open>
  Claim C6, as the code has it. A failing invocation answers 400 when the input is
  malformed (no URL, or no identifier extracted); 500 when the credential is missing or
  malformed or \<open>yt-dlp\<close> is missing; and otherwise the inner \<open>try\<close> block threw an error
  \<open>e\<close> (from the metadata probe, the download, the transcription request or the length
  check) and the status is \<open>thrown_status e\<close>: 401, 429 or 500 by the status, code and
  message of \<open>e\<close>, in this order.
\<close>

theorem failure_status:
  assumes "youtube_POST h body s = (Failure st msg, s')"
  shows "(malformed_input body \<and> st = 400) \<or>
         (\<not> malformed_input body \<and> config_failure h \<and> st = 500) \<or>
         (\<not> malformed_input body \<and> \<not> config_failure h \<and>
          (\<exists>url videoId e. body = Some url \<and> extractVideoId url = Some videoId \<and>
             whisper_attempt h url (called WhichYtDlp (called (FetchTranscript videoId) s))
               = (Throws e, s') \<and>
             st = thrown_status e))"
  using assms
proof (cases rule: youtube_POST_paths)
  case no_url
  then show ?thesis by (auto simp: malformed_input_def)
next
  case (invalid url)
  then show ?thesis by (simp add: malformed_input_def)
next
  case (native url videoId transcriptItems)
  then show ?thesis by simp
next
  case (fallback url videoId)
  then have ok: "\<not> malformed_input body" by (simp add: malformed_input_def)
  from fallback(5) show ?thesis
  proof (cases rule: fallback_paths)
    case no_key
    then have "config_failure h" "st = 500"
      by (auto simp: config_failure_def validateOpenAIKey_def)
    with ok show ?thesis by simp
  next
    case (bad_key k m)
    then have "config_failure h" "st = 500" by (simp_all add: config_failure_def)
    with ok show ?thesis by simp
  next
    case no_yt_dlp
    then have "config_failure h" "st = 500" by (simp_all add: config_failure_def)
    with ok show ?thesis by simp
  next
    case whisper
    then have cfg: "\<not> config_failure h" by (simp add: config_failure_def)
    from whisper(3) show ?thesis
    proof (cases rule: whisper_step_paths)
      case (threw e)
      from whisper_catch_status[of e] threw(2) have "st = thrown_status e" by auto
      with threw(1) fallback(1,3)
      have "\<exists>url videoId e. body = Some url \<and> extractVideoId url = Some videoId \<and>
             whisper_attempt h url (called WhichYtDlp (called (FetchTranscript videoId) s))
               = (Throws e, s') \<and> st = thrown_status e"
        by (intro exI conjI)
      with ok cfg show ?thesis by simp
    next
      case (returned transcript title)
      then show ?thesis by simp
    qed
  qed
qed

theorem failure_status_witness:
  \<open>youtube_POST
     (whisper_host\<lparr>whisper_create :=
        (\<lambda>path. Throws (Error ''Incorrect API key provided: sk-01234*****ghij.''
                          (Some 401) (Some ''invalid_api_key'')))\<rparr>)
     (Some sample_url) idle =
     (Failure 401 ''Invalid or incorrect OpenAI API key. Please check your OPENAI_API_KEY in .env.local and ensure it's valid. Get a new key at https://platform.openai.com/account/api-keys'',
      \<lparr>files = {},
       calls = [FetchTranscript ''abc12345678'', WhichYtDlp, YtDlpDumpJson sample_url,
                YtDlpDownload sample_url sample_tempFile, WhisperCreate sample_tempFile]\<rparr>) \<and>
   \<not> malformed_input (Some sample_url) \<and>
   thrown_status (Error ''Whisper transcription was empty or too short'' None None) = 500\<close>
proof -
  let ?h = "whisper_host\<lparr>whisper_create :=
        (\<lambda>path. Throws (Error ''Incorrect API key provided: sk-01234*****ghij.''
                          (Some 401) (Some ''invalid_api_key'')))\<rparr>"
  let ?s' = "\<lparr>files = {},
       calls = [FetchTranscript ''abc12345678'', WhichYtDlp, YtDlpDumpJson sample_url,
                YtDlpDownload sample_url sample_tempFile, WhisperCreate sample_tempFile]\<rparr>"
  have r: \<open>youtube_POST ?h (Some sample_url) idle =
     (Failure 401 ''Invalid or incorrect OpenAI API key. Please check your OPENAI_API_KEY in .env.local and ensure it's valid. Get a new key at https://platform.openai.com/account/api-keys'', ?s')\<close>
    by code_simp
  have t: "thrown_status (Error ''Whisper transcription was empty or too short'' None None) = 500"
    by code_simp
  have "(401::nat) \<noteq> 400" "(401::nat) \<noteq> 500" by simp_all
  with failure_status[OF r] have "\<not> malformed_input (Some sample_url)" by blast
  with r t show ?thesis by (intro conjI)
qed

text \<open>
  Claim C6 as stated fails. When the metadata probe fails and its message repeats the
  command line with a URL that holds the words \<open>API key\<close>, the resolver answers 401
  although no request was sent to the speech-to-text service; and when that service
  answers 429 with a message that mentions \<open>API key\<close>, the resolver answers 401 too.
\<close>

theorem failure_status_by_message:
  \<open>youtube_POST
     (whisper_host\<lparr>yt_dlp_dump_json :=
        (\<lambda>url. Throws (Error (''Command failed: yt-dlp --dump-json "'' @ url @ ''"'') None None))\<rparr>)
     (Some ''https://youtu.be/abc12345678?about=API key'') idle =
     (Failure 401 ''Invalid or incorrect OpenAI API key. Please check your OPENAI_API_KEY in .env.local and ensure it's valid. Get a new key at https://platform.openai.com/account/api-keys'',
      \<lparr>files = {},
       calls = [FetchTranscript ''abc12345678'', WhichYtDlp,
                YtDlpDumpJson ''https://youtu.be/abc12345678?about=API key'']\<rparr>) \<and>
   fst (youtube_POST
     (whisper_host\<lparr>whisper_create :=
        (\<lambda>path. Throws (Error ''Rate limit reached for this API key, try again in 20s.''
                          (Some 429) (Some ''rate_limit_exceeded'')))\<rparr>)
     (Some sample_url) idle) =
     Failure 401 ''Invalid or incorrect OpenAI API key. Please check your OPENAI_API_KEY in .env.local and ensure it's valid. Get a new key at https://platform.openai.com/account/api-keys''\<close>
  by code_simp

section \<open>The credential check of the fallback\<close>

text \<open>
  Claim C5. When the native step has failed and the configured credential is empty,
  does not start with \<open>sk-\<close> or is shorter than 20 characters, the resolver answers 500
  with the message for that defect, and the only external call of the invocation is the
  native caption fetch: the check for \<open>yt-dlp\<close>, the metadata probe, the audio download
  and the transcription request are never made, and no file is touched.
\<close>

theorem malformed_key_fails_fast:
  assumes "url \<noteq> []" and "extractVideoId url = Some videoId"
    and "native_step h videoId (''YouTube Video '' @ videoId) = None"
    and "OPENAI_API_KEY h = Some k"
    and "k = [] \<or> \<not> startsWith k ''sk-'' \<or> length k < 20"
  shows \<open>youtube_POST h (Some url) s =
     (Failure 500
        (if k = [] then
           ''No transcript available for this video, and OpenAI API key is not configured for Whisper fallback. Please add OPENAI_API_KEY to your .env.local file.''
         else if \<not> startsWith k ''sk-'' then
           ''OPENAI_API_KEY appears to be invalid (should start with "sk-")''
         else ''OPENAI_API_KEY appears to be too short''),
      called (FetchTranscript videoId) s)\<close>
proof -
  from assms(2) have "videoId \<noteq> []" by (rule extractVideoId_nonempty)
  with assms(1-3) have "youtube_POST h (Some url) s = fallback h url (called (FetchTranscript videoId) s)"
    by (simp add: youtube_POST_def)
  with assms(4,5) show ?thesis
    by (auto simp: fallback_def validateOpenAIKey_def)
qed

theorem malformed_key_fails_fast_witness:
  \<open>youtube_POST (whisper_host\<lparr>OPENAI_API_KEY := Some []\<rparr>) (Some sample_url) idle =
     (Failure 500 ''No transcript available for this video, and OpenAI API key is not configured for Whisper fallback. Please add OPENAI_API_KEY to your .env.local file.'',
      \<lparr>files = {}, calls = [FetchTranscript ''abc12345678'']\<rparr>) \<and>
   youtube_POST (whisper_host\<lparr>OPENAI_API_KEY := Some ''pk-0123456789abcdefghij''\<rparr>)
       (Some sample_url) idle =
     (Failure 500 ''OPENAI_API_KEY appears to be invalid (should start with "sk-")'',
      \<lparr>files = {}, calls = [FetchTranscript ''abc12345678'']\<rparr>) \<and>
   youtube_POST (whisper_host\<lparr>OPENAI_API_KEY := Some ''sk-short''\<rparr>) (Some sample_url) idle =
     (Failure 500 ''OPENAI_API_KEY appears to be too short'',
      \<lparr>files = {}, calls = [FetchTranscript ''abc12345678'']\<rparr>)\<close>
proof -
  have u: "sample_url \<noteq> []" "extractVideoId sample_url = Some ''abc12345678''"
    by code_simp+
  have n: "native_step (whisper_host\<lparr>OPENAI_API_KEY := Some k\<rparr>) ''abc12345678''
             (''YouTube Video '' @ ''abc12345678'') = None" for k
    by (simp add: native_step_def whisper_host_def)
  have k: "OPENAI_API_KEY (whisper_host\<lparr>OPENAI_API_KEY := Some k\<rparr>) = Some k" for k
    by simp
  have c: "called (FetchTranscript ''abc12345678'') idle
             = \<lparr>files = {}, calls = [FetchTranscript ''abc12345678'']\<rparr>"
    by (simp add: called_def idle_def)
  have d1: "[] = [] \<or> \<not> startsWith [] ''sk-'' \<or> length ([] :: string) < 20" by simp
  have d2: "''pk-0123456789abcdefghij'' = [] \<or> \<not> startsWith ''pk-0123456789abcdefghij'' ''sk-''
              \<or> length ''pk-0123456789abcdefghij'' < 20" by simp
  have d3: "''sk-short'' = [] \<or> \<not> startsWith ''sk-short'' ''sk-'' \<or> length ''sk-short'' < 20"
    by simp
  note t1 = malformed_key_fails_fast[OF u n k d1, of idle]
  note t2 = malformed_key_fails_fast[OF u n k d2, of idle]
  note t3 = malformed_key_fails_fast[OF u n k d3, of idle]
  from t1 t2 t3 show ?thesis by (simp add: c)
qed

section \<open>The native-caption text\<close>

lemma is_space_blank: "is_space CHR '' ''"
  by (simp add: is_space_def)

lemma ws_words_dropWhile: "ws_words (dropWhile is_space s) = ws_words s"
  by (induction s) simp_all

lemma replace_ws_word:
  "\<forall>x\<in>set w. \<not> is_space x \<Longrightarrow> replace_ws (w @ r) = w @ replace_ws r"
  by (induction w) simp_all

lemma replace_ws_dropWhile: "dropWhile is_space (replace_ws s) = replace_ws (dropWhile is_space s)"
proof (cases s)
  case Nil
  then show ?thesis by simp
next
  case (Cons c cs)
  show ?thesis
  proof (cases "is_space c")
    case False
    with Cons show ?thesis by simp
  next
    case True
    have "dropWhile is_space (replace_ws t) = replace_ws t" if "t = [] \<or> \<not> is_space (hd t)" for t
      using that by (cases t) auto
    moreover have "dropWhile is_space cs = [] \<or> \<not> is_space (hd (dropWhile is_space cs))"
      using hd_dropWhile[of is_space cs] by blast
    ultimately show ?thesis using Cons True by (simp add: is_space_blank)
  qed
qed

lemma rstrip_keeps:
  assumes "y \<in> set ys" and "\<not> is_space y"
  shows "rev (dropWhile is_space (rev (xs @ ys))) = xs @ rev (dropWhile is_space (rev ys))"
proof -
  from assms have "dropWhile is_space (rev ys @ rev xs) = dropWhile is_space (rev ys) @ rev xs"
    by (intro dropWhile_append1[of y]) simp_all
  then show ?thesis by simp
qed

lemma rstrip_word:
  assumes "w \<noteq> []" and "\<forall>x\<in>set w. \<not> is_space x"
  shows "rev (dropWhile is_space (rev (w @ sp))) = w @ rev (dropWhile is_space (rev sp))"
proof -
  from assms have "hd w \<in> set w" "\<not> is_space (hd w)" by simp_all
  then have "dropWhile is_space (rev sp @ rev w) =
      (if \<forall>x\<in>set (rev sp). is_space x then dropWhile is_space (rev w)
       else dropWhile is_space (rev sp) @ rev w)"
    by (simp add: dropWhile_append)
  moreover have "dropWhile is_space (rev w) = rev w"
    using assms by (cases "rev w") auto
  moreover have "dropWhile is_space (rev sp) = []" if "\<forall>x\<in>set (rev sp). is_space x"
    using that by simp
  ultimately show ?thesis by auto
qed

text \<open>
  On a text that does not begin with whitespace, collapsing the runs and stripping the
  end leaves the words with one space between them.
\<close>

lemma rstrip_replace_ws:
  assumes "t = [] \<or> \<not> is_space (hd t)"
  shows "rev (dropWhile is_space (rev (replace_ws t))) = join '' '' (ws_words t)"
  using assms
proof (induction "length t" arbitrary: t rule: less_induct)
  case less
  show ?case
  proof (cases t)
    case Nil
    then show ?thesis by simp
  next
    case (Cons c cs)
    with less.prems have c: "\<not> is_space c" by simp
    define w where "w = c # takeWhile (\<lambda>x. \<not> is_space x) cs"
    define r where "r = dropWhile (\<lambda>x. \<not> is_space x) cs"
    have t: "t = w @ r" by (simp add: Cons w_def r_def)
    have w: "w \<noteq> []" "\<forall>x\<in>set w. \<not> is_space x"
      using c by (auto simp: w_def dest: set_takeWhileD)
    have words: "ws_words t = w # ws_words r"
      using c by (simp add: Cons w_def r_def)
    have norm: "replace_ws t = w @ replace_ws r"
      unfolding t using w(2) by (rule replace_ws_word)
    show ?thesis
    proof (cases r)
      case Nil
      with norm words rstrip_word[OF w, of "[]"] show ?thesis by simp
    next
      case (Cons d ds)
      then have d: "is_space d"
        using hd_dropWhile[of "\<lambda>x. \<not> is_space x" cs] by (simp add: r_def)
      define t' where "t' = dropWhile is_space ds"
      have rr: "replace_ws r = CHR '' '' # replace_ws t'"
        using Cons d by (simp add: t'_def)
      have rw: "ws_words r = ws_words t'"
        using Cons d by (simp add: t'_def ws_words_dropWhile)
      have "length t' \<le> length ds" by (simp add: t'_def length_dropWhile_le)
      then have shorter: "length t' < length t" by (simp add: t Cons)
      have head: "t' = [] \<or> \<not> is_space (hd t')"
        using hd_dropWhile[of is_space ds] by (auto simp: t'_def)
      from less.hyps[OF shorter head]
      have IH: "rev (dropWhile is_space (rev (replace_ws t'))) = join '' '' (ws_words t')" .
      show ?thesis
      proof (cases t')
        case Nil
        then have "replace_ws t = w @ '' ''" "ws_words t = [w]"
          using norm rr words rw by simp_all
        with rstrip_word[OF w, of "'' ''"] show ?thesis by (simp add: is_space_blank)
      next
        case (Cons e es)
        with head have e: "\<not> is_space e" by simp
        with Cons have "e \<in> set (replace_ws t')" by simp
        with e have "rev (dropWhile is_space (rev ((w @ '' '') @ replace_ws t')))
            = (w @ '' '') @ rev (dropWhile is_space (rev (replace_ws t')))"
          by (intro rstrip_keeps[of e]) simp_all
        with IH norm rr have "rev (dropWhile is_space (rev (replace_ws t)))
            = w @ '' '' @ join '' '' (ws_words t')" by simp
        moreover from Cons e obtain v vs where "ws_words t' = v # vs" by simp
        ultimately show ?thesis using words rw by simp
      qed
    qed
  qed
qed

lemma trim_replace_ws: "trim (replace_ws s) = join '' '' (ws_words s)"
proof -
  have "dropWhile is_space s = [] \<or> \<not> is_space (hd (dropWhile is_space s))"
    using hd_dropWhile[of is_space s] by blast
  then have "rev (dropWhile is_space (rev (replace_ws (dropWhile is_space s))))
      = join '' '' (ws_words (dropWhile is_space s))"
    by (rule rstrip_replace_ws)
  then show ?thesis by (simp add: trim_def replace_ws_dropWhile ws_words_dropWhile)
qed

lemma ws_words_split:
  "is_space c \<Longrightarrow> ws_words (a @ c # b) = ws_words a @ ws_words b"
  by (induction a rule: ws_words.induct) (simp_all add: takeWhile_tail dropWhile_append3)

lemma ws_words_join: "ws_words (join '' '' texts) = concat (map ws_words texts)"
proof (induction texts)
  case Nil
  show ?case by simp
next
  case (Cons x xs)
  show ?case
  proof (cases xs)
    case Nil
    then show ?thesis by simp
  next
    case (Cons y ys)
    have "ws_words (x @ CHR '' '' # join '' '' (y # ys)) = ws_words x @ ws_words (join '' '' (y # ys))"
      using is_space_blank by (rule ws_words_split)
    with Cons.IH Cons show ?thesis by simp
  qed
qed

lemma native_transcript_words:
  "native_transcript transcriptItems
     = join '' '' (concat (map (\<lambda>item. ws_words (item_text item)) transcriptItems))"
  by (simp add: native_transcript_def trim_replace_ws ws_words_join comp_def)

text \<open>
  Claim C2. When the captions library returns a non-empty fragment list, the text is
  the fragment texts joined with spaces, with every whitespace run replaced by one space,
  and trimmed; equally, it is the words of the fragments in their order with single
  spaces between them. If it has at least 50 characters the resolver returns it as a
  success with \<open>usedWhisper = false\<close>, after the caption fetch as its only external call.
  The fragments \<open>Hello\<close> and \<open>world\<close> give the text \<open>Hello world\<close>.
\<close>

theorem native_success:
  "(url \<noteq> [] \<and> extractVideoId url = Some videoId \<and>
    fetchTranscript h videoId = Returns transcriptItems \<and> transcriptItems \<noteq> [] \<and>
    50 \<le> length (native_transcript transcriptItems)
      \<longrightarrow> youtube_POST h (Some url) s =
            (Success (native_transcript transcriptItems) (''YouTube Video '' @ videoId) False,
             called (FetchTranscript videoId) s)) \<and>
   native_transcript transcriptItems
     = trim (replace_ws (join '' '' (map item_text transcriptItems))) \<and>
   native_transcript transcriptItems
     = join '' '' (concat (map (\<lambda>item. ws_words (item_text item)) transcriptItems)) \<and>
   native_transcript [\<lparr>item_text = ''Hello''\<rparr>, \<lparr>item_text = ''world''\<rparr>] = ''Hello world''"
proof (intro conjI impI)
  assume a: "url \<noteq> [] \<and> extractVideoId url = Some videoId \<and>
    fetchTranscript h videoId = Returns transcriptItems \<and> transcriptItems \<noteq> [] \<and>
    50 \<le> length (native_transcript transcriptItems)"
  then have "videoId \<noteq> []" using extractVideoId_nonempty by blast
  with a show "youtube_POST h (Some url) s =
            (Success (native_transcript transcriptItems) (''YouTube Video '' @ videoId) False,
             called (FetchTranscript videoId) s)"
    by (simp add: youtube_POST_def native_step_def)
next
  show "native_transcript transcriptItems
     = trim (replace_ws (join '' '' (map item_text transcriptItems)))"
    by (simp add: native_transcript_def)
next
  show "native_transcript transcriptItems
     = join '' '' (concat (map (\<lambda>item. ws_words (item_text item)) transcriptItems))"
    by (rule native_transcript_words)
next
  show "native_transcript [\<lparr>item_text = ''Hello''\<rparr>, \<lparr>item_text = ''world''\<rparr>] = ''Hello world''"
    by code_simp
qed

theorem native_success_witness:
  "youtube_POST captions_host (Some sample_url) idle =
     (Success ''Hello and welcome to this video about formal verification of programs.''
        ''YouTube Video abc12345678'' False,
      \<lparr>files = {}, calls = [FetchTranscript ''abc12345678'']\<rparr>) \<and>
   concat (map (\<lambda>item. ws_words (item_text item)) sample_items)
     = [''Hello'', ''and'', ''welcome'', ''to'', ''this'', ''video'', ''about'', ''formal'',
        ''verification'', ''of'', ''programs.'']"
proof -
  have n: "native_transcript sample_items
      = ''Hello and welcome to this video about formal verification of programs.''"
    by code_simp
  have a: "sample_url \<noteq> [] \<and> extractVideoId sample_url = Some ''abc12345678'' \<and>
      fetchTranscript captions_host ''abc12345678'' = Returns sample_items \<and> sample_items \<noteq> [] \<and>
      50 \<le> length (native_transcript sample_items)"
    by code_simp
  have c: "called (FetchTranscript ''abc12345678'') idle
             = \<lparr>files = {}, calls = [FetchTranscript ''abc12345678'']\<rparr>"
    by (simp add: called_def idle_def)
  have w: "concat (map (\<lambda>item. ws_words (item_text item)) sample_items)
     = [''Hello'', ''and'', ''welcome'', ''to'', ''this'', ''video'', ''about'', ''formal'',
        ''verification'', ''of'', ''programs.'']"
    by code_simp
  from mp[OF conjunct1[OF native_success] a, of idle] w show ?thesis
    by (simp add: n c)
qed

text \<open>
  The text \<open>Hello world\<close> has 11 characters, under the threshold of 50: on these two
  fragments the native step itself returns nothing and the fallback is entered.
\<close>

lemma hello_world_below_threshold:
  "native_step (captions_host\<lparr>fetchTranscript :=
       (\<lambda>videoId. Returns [\<lparr>item_text = ''Hello''\<rparr>, \<lparr>item_text = ''world''\<rparr>])\<rparr>)
     ''abc12345678'' ''YouTube Video abc12345678'' = None"
  by code_simp

section \<open>The text cleaner\<close>

text \<open>
  Claim C8. A cleaning request whose \<open>content\<close> or \<open>task\<close> is absent or empty is
  answered 400, and one with both present but no credential configured is answered 500;
  in both cases no request is sent to the text-generation service.
\<close>

theorem cleaner_rejects_before_remote:
  "(body_content = None \<or> body_content = Some [] \<or> body_task = None \<or> body_task = Some []
      \<longrightarrow> anthropic_POST h body_content body_task log
            = (CleanFailure 400 ''Content and task are required'', log)) \<and>
   (body_content = Some content \<and> content \<noteq> [] \<and> body_task = Some task \<and> task \<noteq> [] \<and>
    (ANTHROPIC_API_KEY h = None \<or> ANTHROPIC_API_KEY h = Some [])
      \<longrightarrow> anthropic_POST h body_content body_task log
            = (CleanFailure 500 ''Anthropic API key not configured'', log))"
proof (intro conjI impI)
  assume "body_content = None \<or> body_content = Some [] \<or> body_task = None \<or> body_task = Some []"
  then show "anthropic_POST h body_content body_task log
            = (CleanFailure 400 ''Content and task are required'', log)"
    by (cases body_content; cases body_task) (auto simp: anthropic_POST_def)
next
  assume "body_content = Some content \<and> content \<noteq> [] \<and> body_task = Some task \<and> task \<noteq> [] \<and>
    (ANTHROPIC_API_KEY h = None \<or> ANTHROPIC_API_KEY h = Some [])"
  then show "anthropic_POST h body_content body_task log
            = (CleanFailure 500 ''Anthropic API key not configured'', log)"
    by (auto simp: anthropic_POST_def)
qed

theorem cleaner_rejects_before_remote_witness:
  "anthropic_POST cleaner_sample (Some []) (Some ''Clean this up.'') []
     = (CleanFailure 400 ''Content and task are required'', []) \<and>
   anthropic_POST cleaner_sample (Some ''raw text'') None []
     = (CleanFailure 400 ''Content and task are required'', []) \<and>
   anthropic_POST (cleaner_sample\<lparr>ANTHROPIC_API_KEY := None\<rparr>) (Some ''raw text'')
       (Some ''Clean this up.'') []
     = (CleanFailure 500 ''Anthropic API key not configured'', [])"
proof -
  have a: "Some [] = None \<or> Some [] = Some ([] :: string) \<or> Some ''Clean this up.'' = None
      \<or> Some ''Clean this up.'' = Some []" by simp
  have b: "Some ''raw text'' = None \<or> Some ''raw text'' = Some [] \<or> (None :: string option) = None
      \<or> (None :: string option) = Some []" by simp
  have c: "Some ''raw text'' = Some ''raw text'' \<and> ''raw text'' \<noteq> [] \<and>
      Some ''Clean this up.'' = Some ''Clean this up.'' \<and> ''Clean this up.'' \<noteq> [] \<and>
      (ANTHROPIC_API_KEY (cleaner_sample\<lparr>ANTHROPIC_API_KEY := None\<rparr>) = None \<or>
       ANTHROPIC_API_KEY (cleaner_sample\<lparr>ANTHROPIC_API_KEY := None\<rparr>) = Some [])" by simp
  note t1 = mp[OF conjunct1[OF cleaner_rejects_before_remote] a]
  note t2 = mp[OF conjunct1[OF cleaner_rejects_before_remote] b]
  note t3 = mp[OF conjunct2[OF cleaner_rejects_before_remote] c]
  show ?thesis by (intro conjI t1 t2 t3)
qed

lemma generate_Cleaned:
  assumes "generate h content task log = (Cleaned (Some r), log')"
  shows "(\<exists>blocks. messages_create h (create_request task content) = Returns (TextBlock r # blocks))
         \<and> log' = log @ [create_request task content]"
proof (cases "messages_create h (create_request task content)")
  case (Throws e)
  with assms show ?thesis by (cases e) (simp_all add: generate_def)
next
  case (Returns blocks)
  show ?thesis
  proof (cases blocks)
    case Nil
    with assms Returns show ?thesis by (simp add: generate_def)
  next
    case (Cons b bs)
    with assms Returns show ?thesis by (cases b) (auto simp: generate_def)
  qed
qed

text \<open>
  Claim C7. When the service returns a message whose first content block is a text
  block, the cleaner answers with exactly that block's text as \<open>result\<close>, after one
  request; and every answer that carries a result string carries the text of the first
  block of the service's message, unchanged.
\<close>

theorem cleaner_returns_first_text:
  "(content \<noteq> [] \<and> task \<noteq> [] \<and> ANTHROPIC_API_KEY h = Some key \<and> key \<noteq> [] \<and>
    messages_create h (create_request task content) = Returns (TextBlock t # blocks)
      \<longrightarrow> anthropic_POST h (Some content) (Some task) log
            = (Cleaned (Some t), log @ [create_request task content])) \<and>
   (anthropic_POST h body_content body_task log = (Cleaned (Some r), log')
      \<longrightarrow> (\<exists>content task blocks. body_content = Some content \<and> body_task = Some task \<and>
             messages_create h (create_request task content) = Returns (TextBlock r # blocks) \<and>
             log' = log @ [create_request task content]))"
proof (intro conjI impI)
  assume "content \<noteq> [] \<and> task \<noteq> [] \<and> ANTHROPIC_API_KEY h = Some key \<and> key \<noteq> [] \<and>
    messages_create h (create_request task content) = Returns (TextBlock t # blocks)"
  then show "anthropic_POST h (Some content) (Some task) log
            = (Cleaned (Some t), log @ [create_request task content])"
    by (simp add: anthropic_POST_def generate_def)
next
  assume a: "anthropic_POST h body_content body_task log = (Cleaned (Some r), log')"
  then obtain content task where b: "body_content = Some content" "body_task = Some task"
    by (cases body_content; cases body_task) (auto simp: anthropic_POST_def)
  with a have "generate h content task log = (Cleaned (Some r), log')"
    by (auto simp: anthropic_POST_def split: if_splits)
  from generate_Cleaned[OF this] b
  show "\<exists>content task blocks. body_content = Some content \<and> body_task = Some task \<and>
             messages_create h (create_request task content) = Returns (TextBlock r # blocks) \<and>
             log' = log @ [create_request task content]"
    by blast
qed

theorem cleaner_returns_first_text_witness:
  "anthropic_POST cleaner_sample (Some ''raw text'') (Some ''Clean this up.'') []
     = (Cleaned (Some ''  Formal verification,  explained.  ''),
        [create_request ''Clean this up.'' ''raw text''])"
proof -
  have a: "''raw text'' \<noteq> [] \<and> ''Clean this up.'' \<noteq> [] \<and>
      ANTHROPIC_API_KEY cleaner_sample = Some ''sk-ant-0123456789'' \<and> ''sk-ant-0123456789'' \<noteq> [] \<and>
      messages_create cleaner_sample (create_request ''Clean this up.'' ''raw text'')
        = Returns (TextBlock ''  Formal verification,  explained.  '' # [TextBlock ''(more)''])"
    by (simp add: cleaner_sample_def)
  from mp[OF conjunct1[OF cleaner_returns_first_text] a, of "[]"] show ?thesis by simp
qed

section \<open>The client orchestrator\<close>

text \<open>
  Claim C9. In a run of \<open>handleSubmit\<close> (the URL is not blank) whose request to the
  resolver is rejected, by a status outside 200 to 299 or by no response at all, the
  only request sent is the one to the resolver: the cleaner is never called. The run ends
  with the error message set, no cleaned transcript, and \<open>processing\<close> off.
\<close>

theorem resolver_failure_aborts:
  assumes "trim (youtubeUrl u) \<noteq> []"
    and "resolved (post_youtube b (youtubeUrl u)) = None"
  shows "snd (handleSubmit b u) = [PostYoutube (youtubeUrl u)] \<and>
         error (fst (handleSubmit b u)) = Some (catch_message (post_youtube b (youtubeUrl u))) \<and>
         cleanedTranscript (fst (handleSubmit b u)) = None \<and>
         rawTranscript (fst (handleSubmit b u)) = None \<and>
         \<not> processing (fst (handleSubmit b u)) \<and>
         currentStep (fst (handleSubmit b u)) = []"
  using assms by (simp add: handleSubmit_def finish_def)

theorem resolver_failure_aborts_witness:
  "trim ''not a video'' \<noteq> [] \<and>
   resolved (post_youtube (served_by captions_host cleaner_sample) ''not a video'') = None \<and>
   snd (handleSubmit (served_by captions_host cleaner_sample) (fresh_page ''not a video''))
     = [PostYoutube ''not a video''] \<and>
   error (fst (handleSubmit (served_by captions_host cleaner_sample) (fresh_page ''not a video'')))
     = Some ''Invalid YouTube URL'' \<and>
   cleanedTranscript
     (fst (handleSubmit (served_by captions_host cleaner_sample) (fresh_page ''not a video'')))
     = None \<and>
   \<not> processing
     (fst (handleSubmit (served_by captions_host cleaner_sample) (fresh_page ''not a video'')))"
proof -
  let ?b = "served_by captions_host cleaner_sample"
  let ?u = "fresh_page ''not a video''"
  have y: "youtubeUrl ?u = ''not a video''" by (simp add: fresh_page_def)
  have p: "post_youtube ?b ''not a video'' =
      HttpResponse 400 \<lparr>data_content = None, data_title = None, data_usedWhisper = None,
             data_result = None, data_error = Some ''Invalid YouTube URL''\<rparr>"
    by code_simp
  have a: "trim ''not a video'' \<noteq> []" by code_simp
  have r: "resolved (post_youtube ?b ''not a video'') = None"
    unfolding p by (simp add: resolved_def)
  have m: "catch_message (post_youtube ?b ''not a video'') = ''Invalid YouTube URL''"
    unfolding p by (simp add: catch_message_def)
  from a r have a': "trim (youtubeUrl ?u) \<noteq> []"
    and r': "resolved (post_youtube ?b (youtubeUrl ?u)) = None" by (simp_all add: y)
  note t = resolver_failure_aborts[OF a' r']
  from t a r show ?thesis by (simp add: y m)
qed

end
